theory Spec2Isabelle
  imports Main "HOL-Library.Sublist"
begin

section \<open>The parsed document\<close>

text \<open>
  The functions of \<^verbatim>\<open>trac_change_history.py\<close> work on the tree that BeautifulSoup builds
  from a page. A node of that tree is a tag or a piece of text. A tag has a name, the
  list of its class tokens (the only multi-valued attribute the scraper reads:
  \<^verbatim>\<open>tag.get("class", [])\<close> is that list, empty when the attribute is absent), its other
  attributes as strings (an association list that names each attribute once, read with
  \<^const>\<open>map_of\<close>), and its contents in document order. The document itself is a tag
  (named \<^verbatim>\<open>[document]\<close>). Comments, scripts and style sheets, which \<^verbatim>\<open>get_text\<close>
  passes over, are left out of the tree. Strings are byte strings: the model covers ASCII
  text.
\<close>

datatype node =
    Tag (tag_name: string) (tag_class: "string list")
        (tag_attrs: "(string \<times> string) list") (tag_contents: "node list")
  | NavigableString string

text \<open>The exceptions the modelled operations of Python can raise.\<close>

datatype py_error = ValueError | KeyError | IndexError

definition bind_result :: "py_error + 'a \<Rightarrow> ('a \<Rightarrow> py_error + 'b) \<Rightarrow> py_error + 'b" where
  "bind_result r f = (case r of Inl e \<Rightarrow> Inl e | Inr v \<Rightarrow> f v)"

subsection \<open>Python strings\<close>

text \<open>\<^verbatim>\<open>str.isspace\<close> on ASCII: tab, the line breaks, the separators 0x1C to 0x1F, space.\<close>

definition is_space :: "char \<Rightarrow> bool" where
  "is_space c = (c \<in> set [CHR 0x09, CHR 0x0A, CHR 0x0B, CHR 0x0C, CHR 0x0D,
                            CHR 0x1C, CHR 0x1D, CHR 0x1E, CHR 0x1F, CHR 0x20])"

definition is_digit :: "char \<Rightarrow> bool" where
  "is_digit c = (c \<in> set ''0123456789'')"

text \<open>The word characters of \<^verbatim>\<open>\w\<close> and \<^verbatim>\<open>\b\<close>: letters, digits, underscore.\<close>

definition is_word :: "char \<Rightarrow> bool" where
  "is_word c = (c \<in> set ''abcdefghijklmnopqrstuvwxyzABCDEFGHIJKLMNOPQRSTUVWXYZ0123456789_'')"

text \<open>\<^verbatim>\<open>s.strip()\<close>\<close>

definition py_strip :: "string \<Rightarrow> string" where
  "py_strip s = rev (dropWhile is_space (rev (dropWhile is_space s)))"

text \<open>\<^verbatim>\<open>sep.join(parts)\<close>\<close>

fun join :: "string \<Rightarrow> string list \<Rightarrow> string" where
  "join sep [] = []"
| "join sep [x] = x"
| "join sep (x # y # ys) = x @ sep @ join sep (y # ys)"

text \<open>\<^verbatim>\<open>sub in s\<close>\<close>

fun contains :: "string \<Rightarrow> string \<Rightarrow> bool" where
  "contains sub [] = (sub = [])"
| "contains sub (c # cs) = (prefix sub (c # cs) \<or> contains sub cs)"

text \<open>
  \<^verbatim>\<open>xs[i]\<close>: a negative index counts from the end, an index out of range raises
  IndexError.
\<close>

definition py_getitem :: "'a list \<Rightarrow> int \<Rightarrow> py_error + 'a" where
  "py_getitem xs i =
     (let j = (if i < 0 then i + int (length xs) else i)
      in if j < 0 \<or> int (length xs) \<le> j then Inl IndexError else Inr (xs ! nat j))"

text \<open>
  \<^verbatim>\<open>int(s)\<close> on a string of decimal digits. On any other string the model reports
  ValueError (Python accepts a few more, such as a sign or surrounding whitespace, and
  CPython may refuse very long digit strings: neither is modelled).
\<close>

definition digit_val :: "char \<Rightarrow> int" where
  "digit_val c = int (of_char c) - 48"

definition py_int :: "string \<Rightarrow> py_error + int" where
  "py_int s =
     (if s \<noteq> [] \<and> list_all is_digit s
      then Inr (foldl (\<lambda>acc c. 10 * acc + digit_val c) 0 s)
      else Inl ValueError)"

subsection \<open>BeautifulSoup: traversal and matching\<close>

text \<open>\<^verbatim>\<open>tag.descendants\<close>: every node below the tag, in document order (pre-order).\<close>

fun descendants :: "node \<Rightarrow> node list" where
  "descendants (NavigableString s) = []"
| "descendants (Tag nm cls ats cs) = concat (map (\<lambda>c. c # descendants c) cs)"

text \<open>
  \<^verbatim>\<open>find_all\<close> keeps the descendants that are tags and match; with
  \<^verbatim>\<open>recursive=False\<close> it looks at the direct children only; \<^verbatim>\<open>find\<close> is the first
  result of \<^verbatim>\<open>find_all\<close>, or None.
\<close>

fun is_tag :: "node \<Rightarrow> bool" where
  "is_tag (Tag nm cls ats cs) = True"
| "is_tag (NavigableString s) = False"

definition find_all_tags :: "(node \<Rightarrow> bool) \<Rightarrow> node \<Rightarrow> node list" where
  "find_all_tags p t = filter (\<lambda>d. is_tag d \<and> p d) (descendants t)"

fun children :: "node \<Rightarrow> node list" where
  "children (Tag nm cls ats cs) = cs"
| "children (NavigableString s) = []"

definition find_all_children :: "(node \<Rightarrow> bool) \<Rightarrow> node \<Rightarrow> node list" where
  "find_all_children p t = filter (\<lambda>d. is_tag d \<and> p d) (children t)"

definition find_tag :: "(node \<Rightarrow> bool) \<Rightarrow> node \<Rightarrow> node option" where
  "find_tag p t = (case find_all_tags p t of [] \<Rightarrow> None | d # ds \<Rightarrow> Some d)"

text \<open>The search criteria: a tag name, an attribute equal to a string or matched by a
  regular expression, a class token. For \<^verbatim>\<open>class_\<close>, BeautifulSoup tries every class
  token and then the tokens joined by a space.\<close>

fun has_name :: "string \<Rightarrow> node \<Rightarrow> bool" where
  "has_name nm (Tag nm' cls ats cs) = (nm' = nm)"
| "has_name nm (NavigableString s) = False"

fun tag_get :: "string \<Rightarrow> node \<Rightarrow> string option" where
  "tag_get k (Tag nm cls ats cs) = map_of ats k"
| "tag_get k (NavigableString s) = None"

fun get_class :: "node \<Rightarrow> string list" where
  "get_class (Tag nm cls ats cs) = cls"
| "get_class (NavigableString s) = []"

definition attr_matches :: "string \<Rightarrow> (string \<Rightarrow> bool) \<Rightarrow> node \<Rightarrow> bool" where
  "attr_matches k p t = (case tag_get k t of None \<Rightarrow> False | Some v \<Rightarrow> p v)"

definition class_matches :: "(string \<Rightarrow> bool) \<Rightarrow> node \<Rightarrow> bool" where
  "class_matches p t = (list_ex p (get_class t) \<or> (get_class t \<noteq> [] \<and> p (join '' '' (get_class t))))"

subsection \<open>BeautifulSoup: rendered text\<close>

text \<open>
  \<^verbatim>\<open>get_text(sep, strip)\<close> joins the text nodes below a tag, in document order. With
  \<^verbatim>\<open>strip=True\<close> every text node is stripped first and the empty ones are left out.
\<close>

fun all_strings :: "node \<Rightarrow> string list" where
  "all_strings (NavigableString s) = [s]"
| "all_strings (Tag nm cls ats cs) = concat (map all_strings cs)"

definition stripped_strings :: "node \<Rightarrow> string list" where
  "stripped_strings t = filter (\<lambda>s. s \<noteq> []) (map py_strip (all_strings t))"

definition get_text :: "string \<Rightarrow> bool \<Rightarrow> node \<Rightarrow> string" where
  "get_text sep strip t = join sep (if strip then stripped_strings t else all_strings t)"

section \<open>Field changes\<close>

text \<open>
  One entry of \<^verbatim>\<open>_parse_field_changes\<close>: a dictionary with the keys \<^verbatim>\<open>field\<close>,
  \<^verbatim>\<open>action\<close>, \<^verbatim>\<open>old_value\<close> and \<^verbatim>\<open>new_value\<close>, each None until it is set.
\<close>

record field_change =
  field :: "string option"
  action :: "string option"
  old_value :: "string option"
  new_value :: "string option"

text \<open>The truth value Python gives to \<^verbatim>\<open>entry["field"]\<close>: None and the empty string are false.\<close>

fun truthy :: "string option \<Rightarrow> bool" where
  "truthy None = False"
| "truthy (Some s) = (s \<noteq> [])"

text \<open>
  The body of the loop over the list items, up to the test of the field name: the entry
  built for one \<^verbatim>\<open>li\<close>.
\<close>

definition li_entry :: "node \<Rightarrow> py_error + field_change" where
  "li_entry li =
     (let entry = \<lparr>field = None, action = None, old_value = None, new_value = None\<rparr>;
          strong = find_tag (has_name ''strong'') li;
          entry = (case strong of
                     Some s \<Rightarrow> entry\<lparr>field := Some (get_text [] True s)\<rparr>
                   | None \<Rightarrow> entry);
          ems = find_all_tags (has_name ''em'') li;
          li_text = get_text '' '' True li
      in if contains ''changed from'' li_text \<and> 2 \<le> length ems then
           bind_result (py_getitem ems 0) (\<lambda>e0.
           bind_result (py_getitem ems 1) (\<lambda>e1.
             Inr (entry\<lparr>action := Some ''changed'',
                        old_value := Some (get_text [] True e0),
                        new_value := Some (get_text [] True e1)\<rparr>)))
         else if contains ''set to'' li_text \<and> ems \<noteq> [] then
           bind_result (py_getitem ems 0) (\<lambda>e0.
             Inr (entry\<lparr>action := Some ''set'',
                        new_value := Some (get_text [] True e0)\<rparr>))
         else if contains ''deleted'' li_text then
           (if ems \<noteq> [] then
              bind_result (py_getitem ems 0) (\<lambda>e0.
                Inr (entry\<lparr>action := Some ''deleted'',
                           old_value := Some (get_text [] True e0)\<rparr>))
            else Inr (entry\<lparr>action := Some ''deleted''\<rparr>))
         else if ems \<noteq> [] then
           bind_result (py_getitem ems (- 1)) (\<lambda>el.
             if 1 < length ems then
               bind_result (py_getitem ems 0) (\<lambda>e0.
                 Inr (entry\<lparr>action := Some ''modified'',
                            new_value := Some (get_text [] True el),
                            old_value := Some (get_text [] True e0)\<rparr>))
             else Inr (entry\<lparr>action := Some ''modified'',
                             new_value := Some (get_text [] True el)\<rparr>))
         else Inr entry)"

text \<open>The loop: an entry is appended when its field name is true, and the loop goes on
  to the next item either way; an exception in one item would end the loop.\<close>

fun field_changes_loop :: "node list \<Rightarrow> field_change list \<Rightarrow> py_error + field_change list" where
  "field_changes_loop [] changes = Inr changes"
| "field_changes_loop (li # lis) changes =
     bind_result (li_entry li) (\<lambda>entry.
       field_changes_loop lis (if truthy (field entry) then changes @ [entry] else changes))"

definition parse_field_changes :: "node \<Rightarrow> py_error + field_change list" where
  "parse_field_changes ul = field_changes_loop (find_all_children (has_name ''li'') ul) []"

section \<open>Regular expressions\<close>

text \<open>
  A position in a text is the character before it (None at the start; the word boundary
  \<^verbatim>\<open>\b\<close> looks at it) and the text from it on. A pattern maps a position to the position
  after its match, or to None. The patterns of the scraper never need to give up a
  character they took: a repetition is followed by the end of the pattern or by a class
  disjoint from its own, and the optional parts end the pattern, so taking the longest
  repetition and the first alternative is what Python's backtracking search finds.
\<close>

type_synonym pos = "char option \<times> string"

type_synonym pattern = "pos \<Rightarrow> pos option"

fun char_class :: "(char \<Rightarrow> bool) \<Rightarrow> pattern" where
  "char_class P (p, []) = None"
| "char_class P (p, c # cs) = (if P c then Some (Some c, cs) else None)"

fun lit :: "string \<Rightarrow> pattern" where
  "lit [] ps = Some ps"
| "lit (x # xs) ps = Option.bind (char_class (\<lambda>c. c = x) ps) (lit xs)"

fun many :: "(char \<Rightarrow> bool) \<Rightarrow> pos \<Rightarrow> pos" where
  "many P (p, []) = (p, [])"
| "many P (p, c # cs) = (if P c then many P (Some c, cs) else (p, c # cs))"

definition plus :: "(char \<Rightarrow> bool) \<Rightarrow> pattern" where
  "plus P ps = map_option (many P) (char_class P ps)"

fun seqs :: "pattern list \<Rightarrow> pattern" where
  "seqs [] ps = Some ps"
| "seqs (m # ms) ps = Option.bind (m ps) (seqs ms)"

definition opt :: "pattern \<Rightarrow> pattern" where
  "opt m ps = (case m ps of Some ps' \<Rightarrow> Some ps' | None \<Rightarrow> Some ps)"

definition alt :: "pattern \<Rightarrow> pattern \<Rightarrow> pattern" where
  "alt m1 m2 ps = (case m1 ps of Some ps' \<Rightarrow> Some ps' | None \<Rightarrow> m2 ps)"

fun word_before :: "pos \<Rightarrow> bool" where
  "word_before (None, s) = False"
| "word_before (Some c, s) = is_word c"

fun word_after :: "pos \<Rightarrow> bool" where
  "word_after (p, []) = False"
| "word_after (p, c # cs) = is_word c"

definition word_boundary :: pattern where
  "word_boundary ps = (if word_before ps \<noteq> word_after ps then Some ps else None)"

definition digit :: pattern where
  "digit = char_class is_digit"

text \<open>The text between two positions, the second reached from the first: a group.\<close>

definition captured :: "pos \<Rightarrow> pos \<Rightarrow> string" where
  "captured ps ps' = take (length (snd ps) - length (snd ps')) (snd ps)"

text \<open>\<^verbatim>\<open>re.search\<close>: the match at the leftmost position that has one.\<close>

fun search_from :: "(pos \<Rightarrow> 'a option) \<Rightarrow> pos \<Rightarrow> 'a option" where
  "search_from m (p, []) = m (p, [])"
| "search_from m (p, c # cs) =
     (case m (p, c # cs) of Some r \<Rightarrow> Some r | None \<Rightarrow> search_from m (Some c, cs))"

definition re_search :: "(pos \<Rightarrow> 'a option) \<Rightarrow> string \<Rightarrow> 'a option" where
  "re_search m s = search_from m (None, s)"

definition re_found :: "pattern \<Rightarrow> string \<Rightarrow> bool" where
  "re_found m s = (re_search m s \<noteq> None)"

text \<open>\<^verbatim>\<open>comment:(\d+)\<close>, giving group 1.\<close>

definition re_comment_num :: "pos \<Rightarrow> string option" where
  "re_comment_num ps =
     Option.bind (lit ''comment:'' ps) (\<lambda>ps1. map_option (captured ps1) (plus is_digit ps1))"

text \<open>\<^verbatim>\<open>#comment:\d+\<close>\<close>

definition re_href_comment :: pattern where
  "re_href_comment = seqs [lit ''#comment:'', plus is_digit]"

text \<open>\<^verbatim>\<open>\d{4}-\d{2}-\d{2}\<close>\<close>

definition re_date :: pattern where
  "re_date = seqs [digit, digit, digit, digit, lit ''-'', digit, digit, lit ''-'', digit, digit]"

text \<open>\<^verbatim>\<open>(\d{4}-\d{2}-\d{2}[T ]\d{2}:\d{2}(?::\d{2})?(?:Z|[+-]\d{2}:\d{2})?)\<close>, giving group 1.\<close>

definition re_timestamp :: "pos \<Rightarrow> string option" where
  "re_timestamp ps =
     map_option (captured ps)
       (seqs [re_date, char_class (\<lambda>c. c \<in> set ''T ''), digit, digit, lit '':'', digit, digit,
              opt (seqs [lit '':'', digit, digit]),
              opt (alt (lit ''Z'')
                       (seqs [char_class (\<lambda>c. c \<in> set ''+-''), digit, digit, lit '':'', digit, digit]))]
          ps)"

text \<open>\<^verbatim>\<open>trac-author\<close>\<close>

definition re_trac_author :: pattern where
  "re_trac_author = lit ''trac-author''"

text \<open>\<^verbatim>\<open>\bby\s+(\S+)\<close>, giving group 1.\<close>

definition re_by :: "pos \<Rightarrow> string option" where
  "re_by ps =
     Option.bind (seqs [word_boundary, lit ''by'', plus is_space] ps)
       (\<lambda>ps1. map_option (captured ps1) (plus (\<lambda>c. \<not> is_space c) ps1))"

text \<open>\<^verbatim>\<open>\bcomment\b\<close>\<close>

definition re_comment_word :: pattern where
  "re_comment_word = seqs [word_boundary, lit ''comment'', word_boundary]"

section \<open>The heading of a change block\<close>

record header_fields =
  comment_num :: "int option"
  timestamp :: "string option"
  author :: "string option"

record header = header_fields +
  raw :: string

text \<open>\<^verbatim>\<open>tag[key]\<close> raises KeyError when the tag has no such attribute.\<close>

definition tag_getitem :: "node \<Rightarrow> string \<Rightarrow> py_error + string" where
  "tag_getitem t k = (case tag_get k t of None \<Rightarrow> Inl KeyError | Some v \<Rightarrow> Inr v)"

text \<open>\<^verbatim>\<open>a or b\<close> on the results of two searches: a tag is always true, None is false.\<close>

fun or_else :: "node option \<Rightarrow> node option \<Rightarrow> node option" where
  "or_else (Some t) b = Some t"
| "or_else None b = b"

text \<open>
  The criteria of the searches inside a heading: \<^verbatim>\<open>"span", class_="cnum"\<close> and
  \<^verbatim>\<open>"a", href=re.compile(r"#comment:\d+")\<close> for the comment number,
  \<^verbatim>\<open>"a", title=re.compile(r"\d{4}-\d{2}-\d{2}")\<close> for the time and
  \<^verbatim>\<open>"span", class_=re.compile(r"trac-author")\<close> for the author.
\<close>

definition is_cnum_span :: "node \<Rightarrow> bool" where
  "is_cnum_span t = (has_name ''span'' t \<and> class_matches (\<lambda>c. c = ''cnum'') t)"

definition is_comment_anchor :: "node \<Rightarrow> bool" where
  "is_comment_anchor t = (has_name ''a'' t \<and> attr_matches ''href'' (re_found re_href_comment) t)"

definition is_time_anchor :: "node \<Rightarrow> bool" where
  "is_time_anchor t = (has_name ''a'' t \<and> attr_matches ''title'' (re_found re_date) t)"

definition is_author_span :: "node \<Rightarrow> bool" where
  "is_author_span t = (has_name ''span'' t \<and> class_matches (re_found re_trac_author) t)"

definition parse_change_header :: "node \<Rightarrow> py_error + header" where
  "parse_change_header h3 =
     (let result = \<lparr>comment_num = None, timestamp = None, author = None, raw = []\<rparr>;
          result = result\<lparr>raw := get_text '' '' True h3\<rparr>;
          cnum_tag = or_else
            (find_tag is_cnum_span h3)
            (find_tag is_comment_anchor h3)
      in bind_result
           (case cnum_tag of
              None \<Rightarrow> Inr result
            | Some t \<Rightarrow>
                (case re_search re_comment_num (get_text [] False t) of
                   None \<Rightarrow> Inr result
                 | Some ds \<Rightarrow> bind_result (py_int ds) (\<lambda>n. Inr (result\<lparr>comment_num := Some n\<rparr>))))
         (\<lambda>result.
       bind_result
           (case find_tag is_time_anchor h3 of
              Some time_tag \<Rightarrow>
                bind_result (tag_getitem time_tag ''title'')
                  (\<lambda>v. Inr (result\<lparr>timestamp := Some (py_strip v)\<rparr>))
            | None \<Rightarrow>
                (case re_search re_timestamp (raw result) of
                   Some g \<Rightarrow> Inr (result\<lparr>timestamp := Some g\<rparr>)
                 | None \<Rightarrow> Inr result))
         (\<lambda>result.
           (case find_tag is_author_span h3 of
              Some author_tag \<Rightarrow> Inr (result\<lparr>author := Some (get_text [] True author_tag)\<rparr>)
            | None \<Rightarrow>
                (case re_search re_by (raw result) of
                   Some g \<Rightarrow> Inr (result\<lparr>author := Some g\<rparr>)
                 | None \<Rightarrow> Inr result)))))"

section \<open>The comment text\<close>

definition parse_comment_text :: "node option \<Rightarrow> string" where
  "parse_comment_text comment_div =
     (case comment_div of None \<Rightarrow> [] | Some d \<Rightarrow> get_text [CHR 0x0A] True d)"

section \<open>The change log\<close>

record event = header_fields +
  field_changes :: "field_change list"
  comment :: string

text \<open>\<^verbatim>\<open>soup.find(id="changelog") or soup\<close>\<close>

definition changelog :: "node \<Rightarrow> node" where
  "changelog soup =
     (case find_tag (attr_matches ''id'' (\<lambda>v. v = ''changelog'')) soup of
        Some t \<Rightarrow> t
      | None \<Rightarrow> soup)"

text \<open>The function given to \<^verbatim>\<open>find_all\<close>; \<^verbatim>\<open>tag.get("id", "")\<close> is the empty string when
  the tag has no id.\<close>

definition is_change_block :: "node \<Rightarrow> bool" where
  "is_change_block t =
     ((has_name ''div'' t \<or> has_name ''li'' t)
      \<and> ''change'' \<in> set (get_class t)
      \<and> prefix ''trac-change'' (case tag_get ''id'' t of None \<Rightarrow> [] | Some v \<Rightarrow> v))"

definition change_blocks :: "node \<Rightarrow> node list" where
  "change_blocks soup = find_all_tags is_change_block (changelog soup)"

text \<open>
  The criteria of the three searches inside a block: \<^verbatim>\<open>"h3", class_="change"\<close> for the
  heading, \<^verbatim>\<open>"ul", class_="changes"\<close> for the list of field changes and
  \<^verbatim>\<open>"div", class_=re.compile(r"\bcomment\b")\<close> for the comment region.
\<close>

definition is_change_heading :: "node \<Rightarrow> bool" where
  "is_change_heading t = (has_name ''h3'' t \<and> class_matches (\<lambda>c. c = ''change'') t)"

definition is_changes_list :: "node \<Rightarrow> bool" where
  "is_changes_list t = (has_name ''ul'' t \<and> class_matches (\<lambda>c. c = ''changes'') t)"

definition is_comment_div :: "node \<Rightarrow> bool" where
  "is_comment_div t = (has_name ''div'' t \<and> class_matches (re_found re_comment_word) t)"

text \<open>The body of the loop over the blocks, up to the test that keeps or drops the event.\<close>

definition block_event :: "node \<Rightarrow> py_error + event" where
  "block_event block =
     (let event = \<lparr>comment_num = None, timestamp = None, author = None,
                   field_changes = [], comment = []\<rparr>
      in bind_result
           (case find_tag is_change_heading block of
              Some h3 \<Rightarrow>
                bind_result (parse_change_header h3)
                  (\<lambda>header. Inr (event\<lparr>comment_num := comment_num header, timestamp := timestamp header,
                                    author := author header\<rparr>))
            | None \<Rightarrow> Inr event)
         (\<lambda>event.
       bind_result
           (case find_tag is_changes_list block of
              Some ul \<Rightarrow>
                bind_result (parse_field_changes ul) (\<lambda>fcs. Inr (event\<lparr>field_changes := fcs\<rparr>))
            | None \<Rightarrow> Inr event)
         (\<lambda>event.
           (case find_tag is_comment_div block of
              Some comment_div \<Rightarrow> Inr (event\<lparr>comment := parse_comment_text (Some comment_div)\<rparr>)
            | None \<Rightarrow> Inr event))))"

fun changelog_loop :: "node list \<Rightarrow> event list \<Rightarrow> py_error + event list" where
  "changelog_loop [] events = Inr events"
| "changelog_loop (block # blocks) events =
     bind_result (block_event block) (\<lambda>event.
       changelog_loop blocks
         (if field_changes event \<noteq> [] \<or> comment event \<noteq> [] then events @ [event] else events))"

definition parse_changelog :: "node \<Rightarrow> py_error + event list" where
  "parse_changelog soup = changelog_loop (change_blocks soup) []"

section \<open>Vocabulary of the properties\<close>

text \<open>
  What the properties below speak about, read off one list item: its field-name marker
  (the first \<^verbatim>\<open>strong\<close> element), the text of that marker, its value tokens (the
  texts of its \<^verbatim>\<open>em\<close> elements, in order) and its rendered text.
\<close>

definition has_marker :: "node \<Rightarrow> bool" where
  "has_marker li = (find_tag (has_name ''strong'') li \<noteq> None)"

definition field_name :: "node \<Rightarrow> string option" where
  "field_name li = map_option (get_text [] True) (find_tag (has_name ''strong'') li)"

definition value_tokens :: "node \<Rightarrow> string list" where
  "value_tokens li = map (get_text [] True) (find_all_tags (has_name ''em'') li)"

definition rendered_text :: "node \<Rightarrow> string" where
  "rendered_text li = get_text '' '' True li"

definition list_items :: "node \<Rightarrow> node list" where
  "list_items ul = find_all_children (has_name ''li'') ul"


definition named :: "field_change \<Rightarrow> bool" where
  "named fc = truthy (field fc)"


text \<open>
  Following the specification's third locator tier, for comparison with the code: the
  tags that are the parent of an \<^verbatim>\<open>h3\<close> heading whose text contains \<^verbatim>\<open>Changed\<close> or
  \<^verbatim>\<open>comment\<close>.
\<close>

definition spec_change_heading :: "node \<Rightarrow> bool" where
  "spec_change_heading h =
     (has_name ''h3'' h \<and> (contains ''Changed'' (get_text '' '' True h)
                              \<or> contains ''comment'' (get_text '' '' True h)))"

definition spec_heading_parents :: "node \<Rightarrow> node list" where
  "spec_heading_parents root =
     filter (\<lambda>d. is_tag d \<and> list_ex spec_change_heading (children d)) (root # descendants root)"

subsection \<open>Example documents\<close>

text \<open>
  Scenario A of the specification. The heading renders as
  \<^verbatim>\<open>comment:3 Changed 2024-01-15T10:00:00Z by alice\<close> in three markups: plain text, the
  comment number in \<^verbatim>\<open><span class="cnum">\<close>, and the comment number in an anchor to
  \<^verbatim>\<open>#comment:3\<close>.
\<close>

definition heading_plain :: node where
  "heading_plain =
     Tag ''h3'' [''change''] []
       [NavigableString ''comment:3 Changed 2024-01-15T10:00:00Z by alice'']"

definition heading_span :: node where
  "heading_span =
     Tag ''h3'' [''change''] []
       [Tag ''span'' [''cnum''] [] [NavigableString ''comment:3''],
        NavigableString '' Changed 2024-01-15T10:00:00Z by alice'']"

definition heading_anchor :: node where
  "heading_anchor =
     Tag ''h3'' [''change''] []
       [Tag ''a'' [] [(''href'', ''#comment:3'')] [NavigableString ''comment:3''],
        NavigableString '' Changed 2024-01-15T10:00:00Z by alice'']"

definition item_component :: node where
  "item_component =
     Tag ''li'' [''trac-field-component''] []
       [Tag ''strong'' [] [] [NavigableString ''Component''],
        NavigableString '' changed from '',
        Tag ''em'' [] [] [NavigableString ''libavcodec''],
        NavigableString '' to '',
        Tag ''em'' [] [] [NavigableString ''libavformat'']]"

definition scenario_A :: "node \<Rightarrow> node" where
  "scenario_A heading =
     Tag ''[document]'' [] []
       [Tag ''div'' [] [(''id'', ''changelog'')]
          [Tag ''div'' [''change''] [(''id'', ''trac-change-3'')]
             [heading, Tag ''ul'' [''changes''] [] [item_component]]]]"

definition event_A :: event where
  "event_A =
     \<lparr>comment_num = Some 3, timestamp = Some ''2024-01-15T10:00:00Z'', author = Some ''alice'',
      field_changes = [\<lparr>field = Some ''Component'', action = Some ''changed'',
                        old_value = Some ''libavcodec'', new_value = Some ''libavformat''\<rparr>],
      comment = []\<rparr>"


text \<open>A page of an older layout: the change is a plain \<^verbatim>\<open>div\<close> under the history
  container, recognisable only by its heading.\<close>

definition legacy_block :: node where
  "legacy_block =
     Tag ''div'' [] []
       [Tag ''h3'' [] [] [NavigableString ''Changed 2024-01-15T10:00:00Z by alice''],
        Tag ''ul'' [''changes''] [] [item_component]]"

definition legacy_page :: node where
  "legacy_page =
     Tag ''[document]'' [] [] [Tag ''div'' [] [(''id'', ''changelog'')] [legacy_block]]"

text \<open>A list item whose field-name marker is empty, with no value token and no verb.\<close>

definition item_empty_marker :: node where
  "item_empty_marker = Tag ''li'' [] [] [Tag ''strong'' [] [] []]"

definition item_status :: node where
  "item_status = Tag ''li'' [] [] [Tag ''strong'' [] [] [NavigableString ''Status'']]"


definition item_date :: node where
  "item_date =
     Tag ''li'' [''trac-field-available_date''] []
       [Tag ''strong'' [] [] [NavigableString ''Available_date''],
        NavigableString '' set to '',
        Tag ''em'' [] [] [NavigableString ''2024-02-01'']]"

definition item_deleted :: node where
  "item_deleted =
     Tag ''li'' [] []
       [Tag ''strong'' [] [] [NavigableString ''Milestone''],
        NavigableString '' '',
        Tag ''em'' [] [] [NavigableString ''1.0''],
        NavigableString '' deleted'']"

definition item_modified :: node where
  "item_modified =
     Tag ''li'' [] []
       [Tag ''strong'' [] [] [NavigableString ''Cc''],
        NavigableString '' '',
        Tag ''em'' [] [] [NavigableString ''bob''],
        NavigableString '' added; '',
        Tag ''em'' [] [] [NavigableString ''carol''],
        NavigableString '' removed'']"







definition changes_list :: "node list \<Rightarrow> node" where
  "changes_list items = Tag ''ul'' [''changes''] [] items"


section \<open>Auxiliary facts\<close>

lemma bind_result_Inr: "bind_result (Inr v) f = f v"
  by (simp add: bind_result_def)

lemma bind_result_Inl: "bind_result (Inl e) f = Inl e"
  by (simp add: bind_result_def)

lemma py_getitem_nat: "i < length xs \<Longrightarrow> py_getitem xs (int i) = Inr (xs ! i)"
  by (simp add: py_getitem_def Let_def)

lemma py_getitem_first: "xs \<noteq> [] \<Longrightarrow> py_getitem xs 0 = Inr (xs ! 0)"
  using py_getitem_nat [of 0 xs] by simp

lemma py_getitem_second: "2 \<le> length xs \<Longrightarrow> py_getitem xs 1 = Inr (xs ! 1)"
  using py_getitem_nat [of 1 xs] by simp

lemma py_getitem_last: "xs \<noteq> [] \<Longrightarrow> py_getitem xs (- 1) = Inr (last xs)"
proof -
  assume ne: "xs \<noteq> []"
  then have len: "0 < length xs" by simp
  then have idx: "nat (int (length xs) - 1) = length xs - Suc 0" by arith
  show ?thesis
    using ne by (simp add: py_getitem_def Let_def idx last_conv_nth)
qed

text \<open>The entry of an item, written without the indexing that could fail.\<close>

lemma li_entry_changed:
  assumes "contains ''changed from'' (rendered_text li)" and "2 \<le> length (value_tokens li)"
  shows "li_entry li = Inr \<lparr>field = field_name li, action = Some ''changed'',
            old_value = Some (value_tokens li ! 0), new_value = Some (value_tokens li ! 1)\<rparr>"
proof -
  let ?ems = "find_all_tags (has_name ''em'') li"
  have len: "2 \<le> length ?ems" using assms(2) by (simp add: value_tokens_def)
  have ne: "?ems \<noteq> []"
  proof
    assume "?ems = []"
    with len show False by simp
  qed
  have l0: "0 < length ?ems" using ne by simp
  have l1: "1 < length ?ems" using len by arith
  have g0: "py_getitem ?ems 0 = Inr (?ems ! 0)"
    using ne by (rule py_getitem_first)
  have g1: "py_getitem ?ems 1 = Inr (?ems ! 1)"
    using len by (rule py_getitem_second)
  have t0: "get_text [] True (?ems ! 0) = value_tokens li ! 0"
    using l0 by (simp add: value_tokens_def)
  have t1: "get_text [] True (?ems ! Suc 0) = value_tokens li ! Suc 0"
    using l1 by (simp add: value_tokens_def)
  show ?thesis
    using assms(1) len
    by (cases "find_tag (has_name ''strong'') li")
       (simp_all add: li_entry_def Let_def g0 g1 t0 t1 bind_result_Inr field_name_def
          rendered_text_def)
qed

lemma li_entry_set:
  assumes "\<not> (contains ''changed from'' (rendered_text li) \<and> 2 \<le> length (value_tokens li))"
    and "contains ''set to'' (rendered_text li)" and "value_tokens li \<noteq> []"
  shows "li_entry li = Inr \<lparr>field = field_name li, action = Some ''set'',
            old_value = None, new_value = Some (value_tokens li ! 0)\<rparr>"
proof -
  let ?ems = "find_all_tags (has_name ''em'') li"
  have ne: "?ems \<noteq> []" using assms(3) by (simp add: value_tokens_def)
  have g0: "py_getitem ?ems 0 = Inr (?ems ! 0)"
    using ne by (rule py_getitem_first)
  have t0: "get_text [] True (?ems ! 0) = value_tokens li ! 0"
    using ne by (simp add: value_tokens_def)
  have c: "\<not> (contains ''changed from'' (get_text '' '' True li) \<and> 2 \<le> length ?ems)"
    using assms(1) by (simp add: value_tokens_def rendered_text_def)
  have s: "contains ''set to'' (get_text '' '' True li)"
    using assms(2) by (simp add: rendered_text_def)
  show ?thesis
    by (cases "find_tag (has_name ''strong'') li")
       (simp_all add: li_entry_def Let_def c s ne g0 t0 bind_result_Inr field_name_def)
qed

lemma li_entry_deleted:
  assumes "\<not> (contains ''changed from'' (rendered_text li) \<and> 2 \<le> length (value_tokens li))"
    and "\<not> (contains ''set to'' (rendered_text li) \<and> value_tokens li \<noteq> [])"
    and "contains ''deleted'' (rendered_text li)"
  shows "li_entry li = Inr \<lparr>field = field_name li, action = Some ''deleted'',
            old_value = (if value_tokens li = [] then None else Some (value_tokens li ! 0)),
            new_value = None\<rparr>"
proof -
  let ?ems = "find_all_tags (has_name ''em'') li"
  have c: "\<not> (contains ''changed from'' (get_text '' '' True li) \<and> 2 \<le> length ?ems)"
    using assms(1) by (simp add: value_tokens_def rendered_text_def)
  have s: "\<not> (contains ''set to'' (get_text '' '' True li) \<and> ?ems \<noteq> [])"
    using assms(2) by (simp add: value_tokens_def rendered_text_def)
  have d: "contains ''deleted'' (get_text '' '' True li)"
    using assms(3) by (simp add: rendered_text_def)
  show ?thesis
  proof (cases "?ems = []")
    case True
    then have v: "value_tokens li = []" by (simp add: value_tokens_def)
    show ?thesis
      using True
      by (cases "find_tag (has_name ''strong'') li")
         (simp_all add: li_entry_def Let_def c d v field_name_def)
  next
    case False
    then have v: "value_tokens li \<noteq> []" by (simp add: value_tokens_def)
    have g0: "py_getitem ?ems 0 = Inr (?ems ! 0)"
      using False by (rule py_getitem_first)
    have t0: "get_text [] True (?ems ! 0) = value_tokens li ! 0"
      using False by (simp add: value_tokens_def)
    have s': "\<not> contains ''set to'' (get_text '' '' True li)"
      using s False by simp
    show ?thesis
      using False
      by (cases "find_tag (has_name ''strong'') li")
         (simp_all add: li_entry_def Let_def c s' d v g0 t0 bind_result_Inr field_name_def)
  qed
qed

lemma li_entry_modified:
  assumes "\<not> (contains ''changed from'' (rendered_text li) \<and> 2 \<le> length (value_tokens li))"
    and "\<not> (contains ''set to'' (rendered_text li) \<and> value_tokens li \<noteq> [])"
    and "\<not> contains ''deleted'' (rendered_text li)"
    and "value_tokens li \<noteq> []"
  shows "li_entry li = Inr \<lparr>field = field_name li, action = Some ''modified'',
            old_value = (if 2 \<le> length (value_tokens li) then Some (value_tokens li ! 0) else None),
            new_value = Some (last (value_tokens li))\<rparr>"
proof -
  let ?ems = "find_all_tags (has_name ''em'') li"
  have ne: "?ems \<noteq> []" using assms(4) by (simp add: value_tokens_def)
  have c: "\<not> (contains ''changed from'' (get_text '' '' True li) \<and> 2 \<le> length ?ems)"
    using assms(1) by (simp add: value_tokens_def rendered_text_def)
  have s: "\<not> contains ''set to'' (get_text '' '' True li)"
    using assms(2,4) by (simp add: rendered_text_def)
  have d: "\<not> contains ''deleted'' (get_text '' '' True li)"
    using assms(3) by (simp add: rendered_text_def)
  have g0: "py_getitem ?ems 0 = Inr (?ems ! 0)"
    using ne by (rule py_getitem_first)
  have gl: "py_getitem ?ems (- 1) = Inr (last ?ems)"
    using ne by (rule py_getitem_last)
  have t0: "get_text [] True (?ems ! 0) = value_tokens li ! 0"
    using ne by (simp add: value_tokens_def)
  have tl: "get_text [] True (last ?ems) = last (value_tokens li)"
    using ne by (simp add: value_tokens_def last_map)
  have two: "(2 \<le> length (value_tokens li)) = (1 < length ?ems)"
    by (auto simp: value_tokens_def)
  show ?thesis
    by (cases "find_tag (has_name ''strong'') li")
       (simp_all add: li_entry_def Let_def c s d ne g0 gl t0 tl two bind_result_Inr field_name_def)
qed

lemma li_entry_plain:
  assumes "\<not> contains ''deleted'' (rendered_text li)"
    and "value_tokens li = []"
  shows "li_entry li = Inr \<lparr>field = field_name li, action = None,
            old_value = None, new_value = None\<rparr>"
proof -
  let ?ems = "find_all_tags (has_name ''em'') li"
  have e: "?ems = []" using assms(2) by (simp add: value_tokens_def)
  show ?thesis
    using assms(1) e
    by (cases "find_tag (has_name ''strong'') li")
       (simp_all add: li_entry_def Let_def rendered_text_def field_name_def)
qed

lemma li_entry_total: "\<exists>e. li_entry li = Inr e \<and> field e = field_name li"
proof -
  consider
      (a) "contains ''changed from'' (rendered_text li) \<and> 2 \<le> length (value_tokens li)"
    | (b) "\<not> (contains ''changed from'' (rendered_text li) \<and> 2 \<le> length (value_tokens li))"
          "contains ''set to'' (rendered_text li) \<and> value_tokens li \<noteq> []"
    | (c) "\<not> (contains ''changed from'' (rendered_text li) \<and> 2 \<le> length (value_tokens li))"
          "\<not> (contains ''set to'' (rendered_text li) \<and> value_tokens li \<noteq> [])"
          "contains ''deleted'' (rendered_text li)"
    | (d) "\<not> (contains ''changed from'' (rendered_text li) \<and> 2 \<le> length (value_tokens li))"
          "\<not> (contains ''set to'' (rendered_text li) \<and> value_tokens li \<noteq> [])"
          "\<not> contains ''deleted'' (rendered_text li)" "value_tokens li \<noteq> []"
    | (e) "\<not> (contains ''changed from'' (rendered_text li) \<and> 2 \<le> length (value_tokens li))"
          "\<not> (contains ''set to'' (rendered_text li) \<and> value_tokens li \<noteq> [])"
          "\<not> contains ''deleted'' (rendered_text li)" "value_tokens li = []"
    by blast
  then show ?thesis
  proof cases
    case a
    then show ?thesis using li_entry_changed [of li] by simp
  next
    case b
    then show ?thesis using li_entry_set [of li] by simp
  next
    case c
    then show ?thesis using li_entry_deleted [of li] by simp
  next
    case d
    then show ?thesis using li_entry_modified [of li] by simp
  next
    case e
    then show ?thesis using li_entry_plain [of li] by simp
  qed
qed










lemma li_entries_exist:
  "\<exists>entries. map li_entry lis = map Inr entries \<and> map field entries = map field_name lis"
proof (induction lis)
  case Nil
  show ?case by simp
next
  case (Cons li lis)
  then obtain entries where
    "map li_entry lis = map Inr entries" "map field entries = map field_name lis" by blast
  moreover obtain e where "li_entry li = Inr e" "field e = field_name li"
    using li_entry_total by blast
  ultimately have "map li_entry (li # lis) = map Inr (e # entries)
      \<and> map field (e # entries) = map field_name (li # lis)" by simp
  then show ?case by blast
qed

lemma field_changes_loop_filter:
  "map li_entry lis = map Inr entries \<Longrightarrow>
     field_changes_loop lis changes = Inr (changes @ filter named entries)"
proof (induction lis arbitrary: entries changes)
  case Nil
  then show ?case by simp
next
  case (Cons li lis)
  then obtain e es where es: "entries = e # es" "li_entry li = Inr e" "map li_entry lis = map Inr es"
    by (cases entries) auto
  show ?case
    using Cons.IH [OF es(3)] by (simp add: es bind_result_Inr named_def)
qed

lemma parse_field_changes_filter:
  "\<exists>entries. map li_entry (list_items ul) = map Inr entries
      \<and> map field entries = map field_name (list_items ul)
      \<and> parse_field_changes ul = Inr (filter named entries)"
proof -
  obtain entries where e: "map li_entry (list_items ul) = map Inr entries"
      "map field entries = map field_name (list_items ul)"
    using li_entries_exist by blast
  have "parse_field_changes ul = Inr (filter named entries)"
    using field_changes_loop_filter [OF e(1), of "[]"]
    by (simp add: parse_field_changes_def list_items_def)
  with e show ?thesis by blast
qed





section \<open>Classification of a field change\<close>

text \<open>
  C2. For a list item, the action of its entry follows from a substring search over the
  item's rendered text, in this order of priority: the text contains \<^verbatim>\<open>changed from\<close>
  and there are at least two value tokens: action \<^verbatim>\<open>changed\<close>, the old value is the first
  token and the new value the second; else the text contains \<^verbatim>\<open>set to\<close> and there is
  at least one token: action \<^verbatim>\<open>set\<close>, the new value is the first token; else the text
  contains \<^verbatim>\<open>deleted\<close>: action \<^verbatim>\<open>deleted\<close>, the old value is the first token when there
  is one; else, with at least one token: action \<^verbatim>\<open>modified\<close>, the new value is the last
  token and the old value the first one when there are two or more. The action
  \<^verbatim>\<open>modified\<close> is never given when a recognised verb phrase is present with enough
  tokens.
\<close>

theorem action_classification:
  "(contains ''changed from'' (rendered_text li) \<and> 2 \<le> length (value_tokens li) \<longrightarrow>
      li_entry li = Inr \<lparr>field = field_name li, action = Some ''changed'',
        old_value = Some (value_tokens li ! 0), new_value = Some (value_tokens li ! 1)\<rparr>)
   \<and> (\<not> (contains ''changed from'' (rendered_text li) \<and> 2 \<le> length (value_tokens li))
        \<and> contains ''set to'' (rendered_text li) \<and> 1 \<le> length (value_tokens li) \<longrightarrow>
      li_entry li = Inr \<lparr>field = field_name li, action = Some ''set'',
        old_value = None, new_value = Some (value_tokens li ! 0)\<rparr>)
   \<and> (\<not> (contains ''changed from'' (rendered_text li) \<and> 2 \<le> length (value_tokens li))
        \<and> \<not> (contains ''set to'' (rendered_text li) \<and> 1 \<le> length (value_tokens li))
        \<and> contains ''deleted'' (rendered_text li) \<longrightarrow>
      li_entry li = Inr \<lparr>field = field_name li, action = Some ''deleted'',
        old_value = (if value_tokens li = [] then None else Some (value_tokens li ! 0)),
        new_value = None\<rparr>)
   \<and> (\<not> (contains ''changed from'' (rendered_text li) \<and> 2 \<le> length (value_tokens li))
        \<and> \<not> (contains ''set to'' (rendered_text li) \<and> 1 \<le> length (value_tokens li))
        \<and> \<not> contains ''deleted'' (rendered_text li)
        \<and> 1 \<le> length (value_tokens li) \<longrightarrow>
      li_entry li = Inr \<lparr>field = field_name li, action = Some ''modified'',
        old_value = (if 2 \<le> length (value_tokens li) then Some (value_tokens li ! 0) else None),
        new_value = Some (last (value_tokens li))\<rparr>)
   \<and> (\<forall>e. li_entry li = Inr e \<and> action e = Some ''modified'' \<longrightarrow>
        \<not> (contains ''changed from'' (rendered_text li) \<and> 2 \<le> length (value_tokens li))
        \<and> \<not> (contains ''set to'' (rendered_text li) \<and> 1 \<le> length (value_tokens li))
        \<and> \<not> contains ''deleted'' (rendered_text li))"
proof -
  have ne: "(1 \<le> length (value_tokens li)) = (value_tokens li \<noteq> [])"
    by (cases "value_tokens li") simp_all
  have changed: "contains ''changed from'' (rendered_text li) \<and> 2 \<le> length (value_tokens li) \<longrightarrow>
      li_entry li = Inr \<lparr>field = field_name li, action = Some ''changed'',
        old_value = Some (value_tokens li ! 0), new_value = Some (value_tokens li ! 1)\<rparr>"
    using li_entry_changed [of li] by blast
  have set_to: "\<not> (contains ''changed from'' (rendered_text li) \<and> 2 \<le> length (value_tokens li))
        \<and> contains ''set to'' (rendered_text li) \<and> 1 \<le> length (value_tokens li) \<longrightarrow>
      li_entry li = Inr \<lparr>field = field_name li, action = Some ''set'',
        old_value = None, new_value = Some (value_tokens li ! 0)\<rparr>"
    unfolding ne using li_entry_set [of li] by blast
  have deleted: "\<not> (contains ''changed from'' (rendered_text li) \<and> 2 \<le> length (value_tokens li))
        \<and> \<not> (contains ''set to'' (rendered_text li) \<and> 1 \<le> length (value_tokens li))
        \<and> contains ''deleted'' (rendered_text li) \<longrightarrow>
      li_entry li = Inr \<lparr>field = field_name li, action = Some ''deleted'',
        old_value = (if value_tokens li = [] then None else Some (value_tokens li ! 0)),
        new_value = None\<rparr>"
    unfolding ne using li_entry_deleted [of li] by blast
  have modified: "\<not> (contains ''changed from'' (rendered_text li) \<and> 2 \<le> length (value_tokens li))
        \<and> \<not> (contains ''set to'' (rendered_text li) \<and> 1 \<le> length (value_tokens li))
        \<and> \<not> contains ''deleted'' (rendered_text li)
        \<and> 1 \<le> length (value_tokens li) \<longrightarrow>
      li_entry li = Inr \<lparr>field = field_name li, action = Some ''modified'',
        old_value = (if 2 \<le> length (value_tokens li) then Some (value_tokens li ! 0) else None),
        new_value = Some (last (value_tokens li))\<rparr>"
    unfolding ne using li_entry_modified [of li] by blast
  have only: "\<not> (contains ''changed from'' (rendered_text li) \<and> 2 \<le> length (value_tokens li))
        \<and> \<not> (contains ''set to'' (rendered_text li) \<and> 1 \<le> length (value_tokens li))
        \<and> \<not> contains ''deleted'' (rendered_text li)"
    if e: "li_entry li = Inr e" "action e = Some ''modified''" for e
  proof -
    have a: "\<not> (contains ''changed from'' (rendered_text li) \<and> 2 \<le> length (value_tokens li))"
    proof
      assume "contains ''changed from'' (rendered_text li) \<and> 2 \<le> length (value_tokens li)"
      with changed e(1) have "action e = Some ''changed''" by simp
      with e(2) show False by simp
    qed
    have b: "\<not> (contains ''set to'' (rendered_text li) \<and> 1 \<le> length (value_tokens li))"
    proof
      assume "contains ''set to'' (rendered_text li) \<and> 1 \<le> length (value_tokens li)"
      with a set_to e(1) have "action e = Some ''set''" by simp
      with e(2) show False by simp
    qed
    have c: "\<not> contains ''deleted'' (rendered_text li)"
    proof
      assume "contains ''deleted'' (rendered_text li)"
      with a b deleted e(1) have "action e = Some ''deleted''" by simp
      with e(2) show False by simp
    qed
    from a b c show ?thesis by blast
  qed
  from changed set_to deleted modified only show ?thesis by blast
qed

theorem action_classification_witness:
  "li_entry item_component = Inr \<lparr>field = Some ''Component'', action = Some ''changed'',
      old_value = Some ''libavcodec'', new_value = Some ''libavformat''\<rparr>
   \<and> li_entry item_date = Inr \<lparr>field = Some ''Available_date'', action = Some ''set'',
      old_value = None, new_value = Some ''2024-02-01''\<rparr>
   \<and> li_entry item_deleted = Inr \<lparr>field = Some ''Milestone'', action = Some ''deleted'',
      old_value = Some ''1.0'', new_value = None\<rparr>
   \<and> li_entry item_modified = Inr \<lparr>field = Some ''Cc'', action = Some ''modified'',
      old_value = Some ''bob'', new_value = Some ''carol''\<rparr>"
proof -
  have c1: "contains ''changed from'' (rendered_text item_component)"
    and c2: "value_tokens item_component = [''libavcodec'', ''libavformat'']"
    and c3: "field_name item_component = Some ''Component''"
    by code_simp+
  have s1: "\<not> contains ''changed from'' (rendered_text item_date)"
    and s2: "contains ''set to'' (rendered_text item_date)"
    and s3: "value_tokens item_date = [''2024-02-01'']"
    and s4: "field_name item_date = Some ''Available_date''"
    by code_simp+
  have d1: "\<not> contains ''changed from'' (rendered_text item_deleted)"
    and d2: "\<not> contains ''set to'' (rendered_text item_deleted)"
    and d3: "contains ''deleted'' (rendered_text item_deleted)"
    and d4: "value_tokens item_deleted = [''1.0'']"
    and d5: "field_name item_deleted = Some ''Milestone''"
    by code_simp+
  have m1: "\<not> contains ''changed from'' (rendered_text item_modified)"
    and m2: "\<not> contains ''set to'' (rendered_text item_modified)"
    and m3: "\<not> contains ''deleted'' (rendered_text item_modified)"
    and m4: "value_tokens item_modified = [''bob'', ''carol'']"
    and m5: "field_name item_modified = Some ''Cc''"
    by code_simp+
  show ?thesis
    using action_classification [of item_component] action_classification [of item_date]
      action_classification [of item_deleted] action_classification [of item_modified]
    by (simp add: c1 c2 c3 s1 s2 s3 s4 d1 d2 d3 d4 d5 m1 m2 m3 m4 m5)
qed

section \<open>Which events are returned\<close>



section \<open>Documents without a history container\<close>





section \<open>Order of the result\<close>



section \<open>List items without a field name\<close>







section \<open>List items with a field name only\<close>

text \<open>
  C10, as stated, fails: an item can have a field-name marker and still be dropped,
  when the marker has no text. This item has a \<^verbatim>\<open>strong\<close> element, no value token and
  no verb phrase, and the list that holds it parses to the empty list.
\<close>

theorem empty_marker_counterexample:
  "has_marker item_empty_marker
   \<and> value_tokens item_empty_marker = []
   \<and> \<not> contains ''changed from'' (rendered_text item_empty_marker)
   \<and> \<not> contains ''set to'' (rendered_text item_empty_marker)
   \<and> \<not> contains ''deleted'' (rendered_text item_empty_marker)
   \<and> parse_field_changes (changes_list [item_empty_marker]) = Inr []"
  by code_simp

text \<open>
  C10, amended. A list item whose field-name marker has a text that is not empty after
  stripping, with no value token and none of the phrases \<^verbatim>\<open>changed from\<close>, \<^verbatim>\<open>set to\<close>
  and \<^verbatim>\<open>deleted\<close> in its rendered text, gives a field change with that field name and
  with action, old value and new value all absent, and this field change is in the
  parsed list.
\<close>

theorem bare_item_kept:
  "li \<in> set (list_items ul) \<and> field_name li = Some s \<and> s \<noteq> []
     \<and> value_tokens li = []
     \<and> \<not> contains ''changed from'' (rendered_text li)
     \<and> \<not> contains ''set to'' (rendered_text li)
     \<and> \<not> contains ''deleted'' (rendered_text li)
   \<longrightarrow> li_entry li = Inr \<lparr>field = Some s, action = None, old_value = None, new_value = None\<rparr>
       \<and> (\<exists>fcs. parse_field_changes ul = Inr fcs
            \<and> \<lparr>field = Some s, action = None, old_value = None, new_value = None\<rparr> \<in> set fcs)"
proof
  assume a: "li \<in> set (list_items ul) \<and> field_name li = Some s \<and> s \<noteq> []
     \<and> value_tokens li = []
     \<and> \<not> contains ''changed from'' (rendered_text li)
     \<and> \<not> contains ''set to'' (rendered_text li)
     \<and> \<not> contains ''deleted'' (rendered_text li)"
  let ?e = "\<lparr>field = Some s, action = None, old_value = None, new_value = None\<rparr>"
  have e: "li_entry li = Inr ?e"
    using a li_entry_plain [of li] by simp
  obtain entries where entries: "map li_entry (list_items ul) = map Inr entries"
    and res: "parse_field_changes ul = Inr (filter named entries)"
    using parse_field_changes_filter by blast
  from a have "li_entry li \<in> set (map li_entry (list_items ul))" by simp
  then have "(Inr ?e :: py_error + field_change) \<in> Inr ` set entries" by (simp add: entries e)
  then have "?e \<in> set entries" by auto
  moreover have "named ?e" using a by (simp add: named_def)
  ultimately have "?e \<in> set (filter named entries)" by simp
  with e res show "li_entry li = Inr ?e \<and> (\<exists>fcs. parse_field_changes ul = Inr fcs \<and> ?e \<in> set fcs)"
    by blast
qed

theorem bare_item_kept_witness:
  "item_status \<in> set (list_items (changes_list [item_date, item_status]))
   \<and> has_marker item_status
   \<and> field_name item_status = Some ''Status''
   \<and> value_tokens item_status = []
   \<and> \<not> contains ''changed from'' (rendered_text item_status)
   \<and> \<not> contains ''set to'' (rendered_text item_status)
   \<and> \<not> contains ''deleted'' (rendered_text item_status)
   \<and> li_entry item_status = Inr \<lparr>field = Some ''Status'', action = None, old_value = None, new_value = None\<rparr>
   \<and> (\<exists>fcs. parse_field_changes (changes_list [item_date, item_status]) = Inr fcs
        \<and> \<lparr>field = Some ''Status'', action = None, old_value = None, new_value = None\<rparr> \<in> set fcs)"
proof -
  have h: "item_status \<in> set (list_items (changes_list [item_date, item_status]))"
    "has_marker item_status"
    "field_name item_status = Some ''Status''"
    "value_tokens item_status = []"
    "\<not> contains ''changed from'' (rendered_text item_status)"
    "\<not> contains ''set to'' (rendered_text item_status)"
    "\<not> contains ''deleted'' (rendered_text item_status)"
    by code_simp+
  show ?thesis
    using bare_item_kept [of item_status "changes_list [item_date, item_status]" "''Status''"] h
    by simp
qed

section \<open>The block locator\<close>

text \<open>
  C3, as stated, fails: the code has one way of finding blocks and no fallback. On this
  page of an older layout the only candidate is the parent of a heading that contains
  \<^verbatim>\<open>Changed\<close>, which the third tier of the specification would accept; the code finds
  no block and returns no event.
\<close>

theorem legacy_layout_counterexample:
  "change_blocks legacy_page = []
   \<and> spec_heading_parents legacy_page = [legacy_block]
   \<and> parse_changelog legacy_page = Inr []"
  by code_simp

lemma is_change_block_iff:
  "is_tag d \<Longrightarrow> is_change_block d \<longleftrightarrow>
     tag_name d \<in> {''div'', ''li''} \<and> ''change'' \<in> set (tag_class d)
     \<and> (\<exists>v. map_of (tag_attrs d) ''id'' = Some v \<and> prefix ''trac-change'' v)"
  by (cases d) (auto simp: is_change_block_def split: option.splits)

text \<open>
  C3, amended. The block locator has a single tier: the blocks are the tags below the
  root, in document order, that are named \<^verbatim>\<open>div\<close> or \<^verbatim>\<open>li\<close>, have \<^verbatim>\<open>change\<close> among
  their class tokens and have an id that begins with \<^verbatim>\<open>trac-change\<close>. When no tag
  qualifies there is no block and the result of the parse is empty, whatever headings the
  document has.
\<close>

theorem locator_single_tier:
  "change_blocks soup =
     filter (\<lambda>d. is_tag d \<and> tag_name d \<in> {''div'', ''li''} \<and> ''change'' \<in> set (tag_class d)
                 \<and> (\<exists>v. map_of (tag_attrs d) ''id'' = Some v \<and> prefix ''trac-change'' v))
       (descendants (changelog soup))
   \<and> ((\<forall>d \<in> set (descendants (changelog soup)). \<not> is_change_block d) \<longrightarrow>
        change_blocks soup = [] \<and> parse_changelog soup = Inr [])"
proof -
  have "change_blocks soup = filter (\<lambda>d. is_tag d \<and> is_change_block d) (descendants (changelog soup))"
    by (simp add: change_blocks_def find_all_tags_def)
  also have "\<dots> = filter (\<lambda>d. is_tag d \<and> tag_name d \<in> {''div'', ''li''} \<and> ''change'' \<in> set (tag_class d)
                 \<and> (\<exists>v. map_of (tag_attrs d) ''id'' = Some v \<and> prefix ''trac-change'' v))
       (descendants (changelog soup))"
    by (rule filter_cong) (auto simp: is_change_block_iff)
  finally have first: "change_blocks soup = filter (\<lambda>d. is_tag d \<and> tag_name d \<in> {''div'', ''li''} \<and> ''change'' \<in> set (tag_class d)
                 \<and> (\<exists>v. map_of (tag_attrs d) ''id'' = Some v \<and> prefix ''trac-change'' v))
       (descendants (changelog soup))" .
  have second: "change_blocks soup = [] \<and> parse_changelog soup = Inr []"
    if "\<forall>d \<in> set (descendants (changelog soup)). \<not> is_change_block d"
  proof -
    from that have "change_blocks soup = []"
      by (simp add: change_blocks_def find_all_tags_def filter_empty_conv)
    then show ?thesis by (simp add: parse_changelog_def)
  qed
  from first second show ?thesis by blast
qed

theorem locator_single_tier_witness:
  "list_all (\<lambda>d. \<not> is_change_block d) (descendants (changelog legacy_page))
   \<and> spec_heading_parents legacy_page \<noteq> []
   \<and> change_blocks legacy_page = []
   \<and> parse_changelog legacy_page = Inr []"
proof -
  have h: "list_all (\<lambda>d. \<not> is_change_block d) (descendants (changelog legacy_page))"
    by code_simp
  have s: "spec_heading_parents legacy_page \<noteq> []" by code_simp
  from h have "\<forall>d \<in> set (descendants (changelog legacy_page)). \<not> is_change_block d"
    by (simp add: list_all_iff)
  then have "change_blocks legacy_page = [] \<and> parse_changelog legacy_page = Inr []"
    using locator_single_tier [of legacy_page] by blast
  with h s show ?thesis by blast
qed

section \<open>Scenario A\<close>

text \<open>
  C4, as stated, fails: when the heading is plain text, with no \<^verbatim>\<open>span\<close> of class
  \<^verbatim>\<open>cnum\<close> and no anchor to \<^verbatim>\<open>#comment:3\<close>, the comment number is not searched for in
  the heading text, and the event has none.
\<close>

theorem plain_heading_counterexample:
  "get_text '' '' True heading_plain = ''comment:3 Changed 2024-01-15T10:00:00Z by alice''
   \<and> parse_changelog (scenario_A heading_plain) = Inr [event_A\<lparr>comment_num := None\<rparr>]
   \<and> parse_changelog (scenario_A heading_plain) \<noteq> Inr [event_A]"
proof -
  have a: "get_text '' '' True heading_plain = ''comment:3 Changed 2024-01-15T10:00:00Z by alice''"
    by code_simp
  have b: "parse_changelog (scenario_A heading_plain) = Inr [event_A\<lparr>comment_num := None\<rparr>]"
    by code_simp
  have c: "event_A\<lparr>comment_num := None\<rparr> \<noteq> event_A"
    by (simp add: event_A_def)
  from a b c show ?thesis by simp
qed

text \<open>
  C4, amended. For a change block whose heading renders as
  \<^verbatim>\<open>comment:3 Changed 2024-01-15T10:00:00Z by alice\<close>, with the token \<^verbatim>\<open>comment:3\<close>
  inside a \<^verbatim>\<open>span\<close> of class \<^verbatim>\<open>cnum\<close> or inside an anchor whose href contains
  \<^verbatim>\<open>#comment:3\<close>, with the one list item
  \<^verbatim>\<open>Component changed from libavcodec to libavformat\<close> and no comment region, the parse
  gives exactly one event: comment number 3, that timestamp, author \<^verbatim>\<open>alice\<close>, the one
  field change of \<^verbatim>\<open>Component\<close> from \<^verbatim>\<open>libavcodec\<close> to \<^verbatim>\<open>libavformat\<close>, and the empty
  comment.
\<close>

theorem scenario_A_tagged_heading:
  "get_text '' '' True heading_span = ''comment:3 Changed 2024-01-15T10:00:00Z by alice''
   \<and> parse_changelog (scenario_A heading_span) = Inr [event_A]
   \<and> get_text '' '' True heading_anchor = ''comment:3 Changed 2024-01-15T10:00:00Z by alice''
   \<and> parse_changelog (scenario_A heading_anchor) = Inr [event_A]"
  by code_simp

section \<open>The heading never fails\<close>




section \<open>The comment text\<close>











end
